theory Spec2Isabelle
  imports Main
begin

section \<open>Data model\<close>

text \<open>
  Go strings are byte sequences; \<^typ>\<open>string\<close> is a list of 8-bit characters, so
  \<open>s ! i\<close> reads the byte \<open>s[i]\<close> and \<open>length s\<close> is \<open>len(s)\<close>.
\<close>

record Token =
  Type :: string
  Value :: string

text \<open>
  The struct \<open>Lexer\<close>. Its cursor \<open>pos\<close> starts at 0, only grows, and is at most
  \<open>len(l.input) + 1\<close> when the call ends, so it is a natural number.
\<close>

record Lexer =
  input :: string
  pos :: nat
  tokens :: "Token list"

text \<open>
  Runtime panics of Go are values of \<open>error\<close>. \<open>OutOfFuel\<close> is not a Go panic: it
  marks a run of the parser that has not returned within the given number of
  nested calls and loop iterations.
\<close>

datatype error = SliceOutOfRange | IndexOutOfRange | NilDereference | OutOfFuel

section \<open>Lexer\<close>

definition NewLexer :: "string \<Rightarrow> Lexer" where
  "NewLexer inp = \<lparr>input = inp, pos = 0, tokens = []\<rparr>"

text \<open>\<open>unicode.IsSpace(rune(char))\<close> for a byte: the Latin-1 white space characters.\<close>

definition isSpace :: "char \<Rightarrow> bool" where
  "isSpace c \<longleftrightarrow> c \<in> {CHR 0x09, CHR 0x0A, CHR 0x0B, CHR 0x0C, CHR 0x0D, CHR 0x20, CHR 0x85, CHR 0xA0}"

definition isAlpha :: "char \<Rightarrow> bool" where
  "isAlpha c \<longleftrightarrow>
     ((of_char c :: nat) \<ge> of_char CHR ''a'' \<and> (of_char c :: nat) \<le> of_char CHR ''z'') \<or>
     ((of_char c :: nat) \<ge> of_char CHR ''A'' \<and> (of_char c :: nat) \<le> of_char CHR ''Z'') \<or>
     c = CHR ''_''"

definition isDigit :: "char \<Rightarrow> bool" where
  "isDigit c \<longleftrightarrow> (of_char c :: nat) \<ge> of_char CHR ''0'' \<and> (of_char c :: nat) \<le> of_char CHR ''9''"

text \<open>The slice expression \<open>s[lo:hi]\<close>, which panics unless \<open>lo \<le> hi \<le> len(s)\<close>.\<close>

definition slice :: "string \<Rightarrow> nat \<Rightarrow> nat \<Rightarrow> error + string" where
  "slice s lo hi =
     (if lo \<le> hi \<and> hi \<le> length s then Inr (take (hi - lo) (drop lo s))
      else Inl SliceOutOfRange)"

text \<open>
  The scanning loops \<open>for l.pos < len(l.input) && P(l.input[l.pos]) { l.pos++ }\<close>:
  the position reached from \<open>i\<close>.
\<close>

function scan_while :: "(char \<Rightarrow> bool) \<Rightarrow> string \<Rightarrow> nat \<Rightarrow> nat" where
  "scan_while P s i = (if i < length s \<and> P (s ! i) then scan_while P s (i + 1) else i)"
  by pat_completeness auto
termination
  by (relation "measure (\<lambda>(P, s, i). length s - i)") auto

declare scan_while.simps [simp del]

text \<open>\<open>l.tokens = append(l.tokens, Token{Type: ty, Value: v})\<close>\<close>

definition emit :: "Lexer \<Rightarrow> string \<Rightarrow> string \<Rightarrow> Lexer" where
  "emit l ty v = l\<lparr>tokens := tokens l @ [\<lparr>Type = ty, Value = v\<rparr>]\<rparr>"

text \<open>The keyword \<open>switch value\<close> of the identifier branch.\<close>

definition keyword_type :: "string \<Rightarrow> string" where
  "keyword_type v =
     (if v = ''function'' then ''FUNCTION''
      else if v = ''return'' then ''RETURN''
      else if v = ''const'' then ''CONST''
      else if v = ''let'' then ''LET''
      else if v = ''var'' then ''VAR''
      else if v = ''if'' then ''IF''
      else ''IDENTIFIER'')"

text \<open>
  The \<open>switch char\<close> at the end of the loop body, for a character that is neither
  white space, nor the start of a comment, an identifier or a string.
\<close>

definition Tokenize_switch :: "Lexer \<Rightarrow> char \<Rightarrow> error + Lexer" where
  "Tokenize_switch l char =
     (let two = (pos l + 1 < length (input l) \<and> input l ! (pos l + 1) = CHR ''='');
          advance = (\<lambda>l. Inr (l\<lparr>pos := pos l + 1\<rparr>))
      in
      if char = CHR ''('' then advance (emit l ''LEFT_PAREN'' ''('')
      else if char = CHR '')'' then advance (emit l ''RIGHT_PAREN'' '')'')
      else if char = CHR ''{'' then advance (emit l ''LEFT_BRACE'' ''{'')
      else if char = CHR ''}'' then advance (emit l ''RIGHT_BRACE'' ''}'')
      else if char = CHR '';'' then advance (emit l ''SEMICOLON'' '';'')
      else if char = CHR '','' then advance (emit l ''COMMA'' '','')
      else if char = CHR ''='' then
        (if two then advance ((emit l ''EQUALITY'' ''=='')\<lparr>pos := pos l + 1\<rparr>)
         else advance (emit l ''EQUALS'' ''=''))
      else if char = CHR ''>'' then
        (if two then advance ((emit l ''GREATER_EQUAL'' ''>='')\<lparr>pos := pos l + 1\<rparr>)
         else advance (emit l ''GREATER_THAN'' ''>''))
      else if char = CHR ''<'' then
        (if two then advance ((emit l ''LESS_EQUAL'' ''<='')\<lparr>pos := pos l + 1\<rparr>)
         else advance (emit l ''LESS_THAN'' ''<''))
      else if char = CHR ''+'' then advance (emit l ''PLUS'' ''+'')
      else if char = CHR ''-'' then advance (emit l ''MINUS'' ''-'')
      else if char = CHR ''*'' then advance (emit l ''MULTIPLY'' ''*'')
      else if char = CHR ''/'' then
        (if pos l + 1 < length (input l) \<and> input l ! (pos l + 1) = CHR ''/''
         then Inr (l\<lparr>pos := pos l + 1\<rparr>)
         else advance (emit l ''DIVIDE'' ''/''))
      else if char = CHR ''%'' then advance (emit l ''MODULO'' ''%'')
      else if isDigit char then
        (let start = pos l;
             l = l\<lparr>pos := scan_while isDigit (input l) (pos l)\<rparr>;
             l = (if pos l < length (input l) \<and> input l ! pos l = CHR ''.''
                  then (let l = l\<lparr>pos := pos l + 1\<rparr>
                        in l\<lparr>pos := scan_while isDigit (input l) (pos l)\<rparr>)
                  else l)
         in case slice (input l) start (pos l) of
              Inl e \<Rightarrow> Inl e
            | Inr v \<Rightarrow> Inr (emit l ''NUMBER'' v))
      else Inr (l\<lparr>pos := pos l + 1\<rparr>))"

text \<open>One iteration of the loop of \<open>Tokenize\<close>, entered with \<open>l.pos < len(l.input)\<close>.\<close>

definition Tokenize_step :: "Lexer \<Rightarrow> error + Lexer" where
  "Tokenize_step l =
     (let char = input l ! pos l in
      if isSpace char then Inr (l\<lparr>pos := pos l + 1\<rparr>)
      else if char = CHR ''/'' \<and> pos l + 1 < length (input l) \<and> input l ! (pos l + 1) = CHR ''/'' then
        (let start = pos l;
             l = l\<lparr>pos := scan_while (\<lambda>c. c \<noteq> CHR 0x0A) (input l) (pos l)\<rparr>
         in case slice (input l) start (pos l) of
              Inl e \<Rightarrow> Inl e
            | Inr v \<Rightarrow> Inr (emit l ''COMMENT'' v))
      else if isAlpha char then
        (let start = pos l;
             l = l\<lparr>pos := scan_while (\<lambda>c. isAlpha c \<or> isDigit c) (input l) (pos l)\<rparr>
         in case slice (input l) start (pos l) of
              Inl e \<Rightarrow> Inl e
            | Inr v \<Rightarrow> Inr (emit l (keyword_type v) v))
      else if char = CHR 0x22 \<or> char = CHR 0x27 then
        (let quote = char;
             start = pos l;
             l = l\<lparr>pos := pos l + 1\<rparr>;
             l = l\<lparr>pos := scan_while (\<lambda>c. c \<noteq> quote) (input l) (pos l)\<rparr>;
             l = l\<lparr>pos := pos l + 1\<rparr>
         in case slice (input l) start (pos l) of
              Inl e \<Rightarrow> Inl e
            | Inr v \<Rightarrow> Inr (emit l ''STRING'' v))
      else Tokenize_switch l char)"

lemma scan_while_ge: "i \<le> scan_while P s i"
proof (induction P s i rule: scan_while.induct)
  case (1 P s i)
  show ?case
  proof (cases "i < length s \<and> P (s ! i)")
    case True
    with 1 have "i + 1 \<le> scan_while P s (i + 1)" by simp
    with True show ?thesis by (subst scan_while.simps) simp
  next
    case False
    then show ?thesis by (subst scan_while.simps) auto
  qed
qed

lemma scan_while_gt: "i < length s \<Longrightarrow> P (s ! i) \<Longrightarrow> i < scan_while P s i"
  using scan_while_ge [of "i + 1" P s] by (subst scan_while.simps) simp

lemma Tokenize_switch_progress:
  "Tokenize_switch l c = Inr l' \<Longrightarrow> pos l < length (input l) \<Longrightarrow> c = input l ! pos l \<Longrightarrow>
   input l' = input l \<and> pos l < pos l'"
  unfolding Tokenize_switch_def Let_def emit_def
  using scan_while_gt [of "pos l" "input l" isDigit]
  by (auto split: if_splits sum.splits intro: less_le_trans [OF _ scan_while_ge] less_trans [OF _ less_le_trans [OF _ scan_while_ge]])

lemma Tokenize_step_progress:
  "Tokenize_step l = Inr l' \<Longrightarrow> pos l < length (input l) \<Longrightarrow>
   input l' = input l \<and> pos l < pos l'"
  unfolding Tokenize_step_def Let_def emit_def
  using scan_while_gt [of "pos l" "input l" "\<lambda>c. c \<noteq> CHR 0x0A"]
        scan_while_gt [of "pos l" "input l" "\<lambda>c. isAlpha c \<or> isDigit c"]
        scan_while_ge [of "pos l + 1" "\<lambda>c. c \<noteq> input l ! pos l" "input l"]
  by (auto split: if_splits sum.splits dest: Tokenize_switch_progress)

text \<open>The loop \<open>for l.pos < len(l.input) { ... }\<close> of \<open>Tokenize\<close>.\<close>

function Tokenize_loop :: "Lexer \<Rightarrow> error + Lexer" where
  "Tokenize_loop l =
     (if pos l < length (input l) then
        (case Tokenize_step l of
           Inl e \<Rightarrow> Inl e
         | Inr l' \<Rightarrow> Tokenize_loop l')
      else Inr l)"
  by pat_completeness auto
termination
proof (relation "measure (\<lambda>l. length (input l) - pos l)")
  show "wf (measure (\<lambda>l. length (input l) - pos l))" by simp
next
  fix l l'
  assume "pos l < length (input l)" and "Tokenize_step l = Inr l'"
  then have "input l' = input l \<and> pos l < pos l'"
    using Tokenize_step_progress by blast
  with \<open>pos l < length (input l)\<close>
  show "(l', l) \<in> measure (\<lambda>l. length (input l) - pos l)"
    by (auto intro: diff_less_mono2)
qed

declare Tokenize_loop.simps [simp del]

text \<open>
  \<open>Tokenize\<close>: the loop, then the EOF token. The result is the returned slice
  \<open>l.tokens\<close> together with the lexer as the call leaves it.
\<close>

definition Tokenize :: "Lexer \<Rightarrow> error + (Token list \<times> Lexer)" where
  "Tokenize l =
     (case Tokenize_loop l of
        Inl e \<Rightarrow> Inl e
      | Inr l' \<Rightarrow> (let l'' = emit l' ''EOF'' '''' in Inr (tokens l'', l'')))"

section \<open>Syntax tree\<close>

text \<open>
  The node structs of the tree. A field of interface type \<open>Node\<close> that may hold \<open>nil\<close>
  is an option. \<open>Program\<close> is only ever the root, so it is a type of its own.
\<close>

datatype Node =
    FunctionDeclaration string "Parameter list" "Node list"
  | ReturnStatement "Node option"
  | Identifier string
  | StringLiteral string
  | VariableDeclaration string string "Node option"
  | Comment string
  | IfStatement "Node option" "Node list"
  | BinaryExpression "Node option" string "Node option"
  | NumericLiteral string
and Parameter = Parameter string "Node option"

datatype Program = Program (Body: "Node list")

section \<open>Parser\<close>

text \<open>
  The struct \<open>Parser\<close>; its fields \<open>tokens\<close> and \<open>pos\<close> carry a prefix, the lexer's
  fields having the same names. \<open>pos\<close> is a Go \<open>int\<close>: a 64-bit two's complement
  integer (as on amd64 and arm64), whose values are the integers from \<open>MinInt\<close> to
  \<open>MaxInt\<close> and whose increment wraps around without a panic.
\<close>

record Parser =
  ptokens :: "Token list"
  ppos :: int

definition MaxInt :: int where
  "MaxInt = 2 ^ 63 - 1"

definition MinInt :: int where
  "MinInt = - (2 ^ 63)"

text \<open>The value of an integer expression as a Go \<open>int\<close>.\<close>

definition wrap :: "int \<Rightarrow> int" where
  "wrap x = (x + 2 ^ 63) mod 2 ^ 64 - 2 ^ 63"

definition NewParser :: "Token list \<Rightarrow> Parser" where
  "NewParser ts = \<lparr>ptokens = ts, ppos = 0\<rparr>"

text \<open>Sequencing of calls that may panic: the first error ends the run.\<close>

definition and_then :: "error + 'a \<Rightarrow> ('a \<Rightarrow> error + 'b) \<Rightarrow> error + 'b" where
  "and_then m f = (case m of Inl e \<Rightarrow> Inl e | Inr x \<Rightarrow> f x)"

text \<open>
  \<open>current\<close>: the index expression \<open>p.tokens[p.pos]\<close> panics on a negative index;
  an index at or past the end is caught by the guard before it. \<open>next\<close>: \<open>p.pos++\<close>
  wraps from \<open>MaxInt\<close> to \<open>MinInt\<close>.
\<close>

definition current :: "Parser \<Rightarrow> error + Token" where
  "current p =
     (if ppos p \<ge> int (length (ptokens p)) then Inr \<lparr>Type = ''EOF'', Value = ''''\<rparr>
      else if ppos p < 0 then Inl IndexOutOfRange
      else Inr (ptokens p ! nat (ppos p)))"

definition "next" :: "Parser \<Rightarrow> error + (Token \<times> Parser)" where
  "next p = (let p = p\<lparr>ppos := wrap (ppos p + 1)\<rparr> in and_then (current p) (\<lambda>t. Inr (t, p)))"

definition parseComment :: "Parser \<Rightarrow> error + (Node \<times> Parser)" where
  "parseComment p =
     and_then (current p) (\<lambda>tok.
     let comment = Comment (Value tok) in
     and_then (next p) (\<lambda>(_, p).
     Inr (comment, p)))"

text \<open>
  \<open>strings.Trim(s, cutset)\<close> of the Go standard library: \<open>s\<close> without its leading and
  trailing characters that occur in \<open>cutset\<close> (bytewise for an ASCII cutset).
\<close>

definition Trim :: "string \<Rightarrow> string \<Rightarrow> string" where
  "Trim s cutset =
     rev (dropWhile (\<lambda>c. c \<in> set cutset) (rev (dropWhile (\<lambda>c. c \<in> set cutset) s)))"

definition parsePrimary :: "Parser \<Rightarrow> error + (Node option \<times> Parser)" where
  "parsePrimary p =
     and_then (current p) (\<lambda>token.
     if Type token = ''IDENTIFIER'' then
       (let identifier = Identifier (Value token) in
        and_then (next p) (\<lambda>(_, p). Inr (Some identifier, p)))
     else if Type token = ''NUMBER'' then
       (let number = NumericLiteral (Value token) in
        and_then (next p) (\<lambda>(_, p). Inr (Some number, p)))
     else if Type token = ''STRING'' then
       (let rawValue = Value token;
            cleanValue = Trim rawValue [CHR 0x22, CHR 0x27];
            value = StringLiteral cleanValue
        in and_then (next p) (\<lambda>(_, p). Inr (Some value, p)))
     else and_then (next p) (\<lambda>(_, p). Inr (None, p)))"

definition isBinaryOperator :: "string \<Rightarrow> bool" where
  "isBinaryOperator tokenType \<longleftrightarrow>
     tokenType = ''EQUALITY'' \<or> tokenType = ''EQUALS'' \<or>
     tokenType = ''PLUS'' \<or> tokenType = ''MINUS'' \<or>
     tokenType = ''MULTIPLY'' \<or> tokenType = ''DIVIDE'' \<or>
     tokenType = ''MODULO'' \<or>
     tokenType = ''GREATER_THAN'' \<or> tokenType = ''LESS_THAN'' \<or>
     tokenType = ''GREATER_EQUAL'' \<or> tokenType = ''LESS_EQUAL''"

definition parseExpression :: "Parser \<Rightarrow> error + (Node option \<times> Parser)" where
  "parseExpression p =
     and_then (parsePrimary p) (\<lambda>(left, p).
     and_then (current p) (\<lambda>tok.
     if isBinaryOperator (Type tok) then
       and_then (current p) (\<lambda>tok.
       let operator = Value tok in
       and_then (next p) (\<lambda>(_, p).
       and_then (parsePrimary p) (\<lambda>(right, p).
       Inr (Some (BinaryExpression left operator right), p))))
     else Inr (left, p)))"

definition parseReturnStatement :: "Parser \<Rightarrow> error + (Node \<times> Parser)" where
  "parseReturnStatement p =
     and_then (next p) (\<lambda>(_, p).
     and_then (current p) (\<lambda>tok.
     and_then (if Type tok \<noteq> ''SEMICOLON'' \<and> Type tok \<noteq> ''EOF''
               then parseExpression p else Inr (None, p)) (\<lambda>(argument, p).
     and_then (current p) (\<lambda>tok.
     and_then (if Type tok = ''SEMICOLON''
               then and_then (next p) (\<lambda>(_, p). Inr p) else Inr p) (\<lambda>p.
     Inr (ReturnStatement argument, p))))))"

definition parseVariableDeclaration :: "Parser \<Rightarrow> error + (Node \<times> Parser)" where
  "parseVariableDeclaration p =
     and_then (current p) (\<lambda>tok.
     let kind = Value tok in
     and_then (next p) (\<lambda>(_, p).
     and_then (current p) (\<lambda>tok.
     let name = Value tok in
     and_then (next p) (\<lambda>(_, p).
     and_then (current p) (\<lambda>tok.
     and_then (if Type tok = ''EQUALS''
               then and_then (next p) (\<lambda>(_, p). Inr p) else Inr p) (\<lambda>p.
     and_then (parseExpression p) (\<lambda>(value, p).
     and_then (current p) (\<lambda>tok.
     and_then (if Type tok = ''SEMICOLON''
               then and_then (next p) (\<lambda>(_, p). Inr p) else Inr p) (\<lambda>p.
     Inr (VariableDeclaration kind name value, p))))))))))"

text \<open>\<open>if node != nil { body = append(body, node) }\<close>\<close>

definition append_node :: "Node list \<Rightarrow> Node option \<Rightarrow> Node list" where
  "append_node body node = (case node of None \<Rightarrow> body | Some n \<Rightarrow> body @ [n])"

text \<open>
  The loops and the mutually recursive statement parsers take fuel: every loop
  iteration and every nested call uses one unit, and a run that needs more than
  it was given ends in \<open>OutOfFuel\<close>. A call of the source that never returns is
  one that ends in \<open>OutOfFuel\<close> for every amount of fuel.
\<close>

text \<open>The parameter loop of \<open>parseFunctionDeclaration\<close>.\<close>

fun parseParams :: "nat \<Rightarrow> Parser \<Rightarrow> Parameter list \<Rightarrow> error + (Parameter list \<times> Parser)" where
  "parseParams 0 p params = Inl OutOfFuel"
| "parseParams (Suc n) p params =
     and_then (current p) (\<lambda>tok.
     if Type tok \<noteq> ''RIGHT_PAREN'' \<and> Type tok \<noteq> ''EOF'' then
       (if Type tok = ''IDENTIFIER'' then
          (let paramName = Value tok in
           and_then (next p) (\<lambda>(_, p).
           and_then (current p) (\<lambda>tok.
           and_then (if Type tok = ''EQUALS''
                     then and_then (next p) (\<lambda>(_, p). parseExpression p)
                     else Inr (None, p)) (\<lambda>(defaultValue, p).
           let params = params @ [Parameter paramName defaultValue] in
           and_then (current p) (\<lambda>tok.
           and_then (if Type tok = ''COMMA''
                     then and_then (next p) (\<lambda>(_, p). Inr p) else Inr p) (\<lambda>p.
           parseParams n p params))))))
        else and_then (next p) (\<lambda>(_, p). parseParams n p params))
     else Inr (params, p))"

fun parseStatement :: "nat \<Rightarrow> Parser \<Rightarrow> error + (Node option \<times> Parser)"
and parseFunctionDeclaration :: "nat \<Rightarrow> Parser \<Rightarrow> error + (Node \<times> Parser)"
and parseFunctionBody :: "nat \<Rightarrow> Parser \<Rightarrow> Node list \<Rightarrow> error + (Node list \<times> Parser)"
and parseIfStatement :: "nat \<Rightarrow> Parser \<Rightarrow> error + (Node \<times> Parser)"
and parseConsequent :: "nat \<Rightarrow> Parser \<Rightarrow> Node list \<Rightarrow> error + (Node list \<times> Parser)"
where
  "parseStatement 0 p = Inl OutOfFuel"
| "parseStatement (Suc n) p =
     and_then (current p) (\<lambda>token.
     if Type token = ''COMMENT'' then
       and_then (parseComment p) (\<lambda>(node, p). Inr (Some node, p))
     else if Type token = ''FUNCTION'' then
       and_then (parseFunctionDeclaration n p) (\<lambda>(node, p). Inr (Some node, p))
     else if Type token = ''RETURN'' then
       and_then (parseReturnStatement p) (\<lambda>(node, p). Inr (Some node, p))
     else if Type token = ''CONST'' \<or> Type token = ''LET'' \<or> Type token = ''VAR'' then
       and_then (parseVariableDeclaration p) (\<lambda>(node, p). Inr (Some node, p))
     else if Type token = ''IF'' then
       and_then (parseIfStatement n p) (\<lambda>(node, p). Inr (Some node, p))
     else if Type token = ''SEMICOLON'' then
       and_then (next p) (\<lambda>(_, p). Inr (None, p))
     else and_then (next p) (\<lambda>(_, p). Inr (None, p)))"
| "parseFunctionDeclaration 0 p = Inl OutOfFuel"
| "parseFunctionDeclaration (Suc n) p =
     and_then (next p) (\<lambda>(_, p).
     and_then (current p) (\<lambda>tok.
     let name = Value tok in
     and_then (next p) (\<lambda>(_, p).
     and_then (current p) (\<lambda>tok.
     and_then (if Type tok = ''LEFT_PAREN'' then
                 and_then (next p) (\<lambda>(_, p).
                 and_then (parseParams n p []) (\<lambda>(params, p).
                 and_then (current p) (\<lambda>tok.
                 if Type tok = ''RIGHT_PAREN''
                 then and_then (next p) (\<lambda>(_, p). Inr (params, p))
                 else Inr (params, p))))
               else Inr ([], p)) (\<lambda>(params, p).
     and_then (current p) (\<lambda>tok.
     and_then (if Type tok = ''LEFT_BRACE'' then
                 and_then (next p) (\<lambda>(_, p).
                 and_then (parseFunctionBody n p []) (\<lambda>(body, p).
                 and_then (next p) (\<lambda>(_, p). Inr (body, p))))
               else Inr ([], p)) (\<lambda>(body, p).
     Inr (FunctionDeclaration name params body, p))))))))"
| "parseFunctionBody 0 p body = Inl OutOfFuel"
| "parseFunctionBody (Suc n) p body =
     and_then (current p) (\<lambda>tok.
     if Type tok \<noteq> ''RIGHT_BRACE'' then
       and_then (parseStatement n p) (\<lambda>(stmt, p).
       parseFunctionBody n p (append_node body stmt))
     else Inr (body, p))"
| "parseIfStatement 0 p = Inl OutOfFuel"
| "parseIfStatement (Suc n) p =
     and_then (next p) (\<lambda>(_, p).
     and_then (current p) (\<lambda>tok.
     and_then (if Type tok = ''LEFT_PAREN'' then
                 and_then (next p) (\<lambda>(_, p).
                 and_then (parseExpression p) (\<lambda>(test, p).
                 and_then (current p) (\<lambda>tok.
                 if Type tok = ''RIGHT_PAREN''
                 then and_then (next p) (\<lambda>(_, p). Inr (test, p))
                 else Inr (test, p))))
               else Inr (None, p)) (\<lambda>(test, p).
     and_then (current p) (\<lambda>tok.
     and_then (if Type tok = ''LEFT_BRACE'' then
                 and_then (next p) (\<lambda>(_, p).
                 and_then (parseConsequent n p []) (\<lambda>(consequent, p).
                 and_then (current p) (\<lambda>tok.
                 if Type tok = ''RIGHT_BRACE''
                 then and_then (next p) (\<lambda>(_, p). Inr (consequent, p))
                 else Inr (consequent, p))))
               else Inr ([], p)) (\<lambda>(consequent, p).
     Inr (IfStatement test consequent, p))))))"
| "parseConsequent 0 p consequent = Inl OutOfFuel"
| "parseConsequent (Suc n) p consequent =
     and_then (current p) (\<lambda>tok.
     if Type tok \<noteq> ''RIGHT_BRACE'' \<and> Type tok \<noteq> ''EOF'' then
       and_then (parseStatement n p) (\<lambda>(stmt, p).
       parseConsequent n p (append_node consequent stmt))
     else Inr (consequent, p))"

text \<open>The loop of \<open>Parse\<close>.\<close>

fun Parse_loop :: "nat \<Rightarrow> Parser \<Rightarrow> Node list \<Rightarrow> error + (Node list \<times> Parser)" where
  "Parse_loop 0 p body = Inl OutOfFuel"
| "Parse_loop (Suc n) p body =
     and_then (current p) (\<lambda>tok.
     if Type tok \<noteq> ''EOF'' then
       and_then (parseStatement n p) (\<lambda>(node, p).
       Parse_loop n p (append_node body node))
     else Inr (body, p))"

definition Parse :: "nat \<Rightarrow> Parser \<Rightarrow> error + (Program \<times> Parser)" where
  "Parse fuel p = and_then (Parse_loop fuel p []) (\<lambda>(body, p). Inr (Program body, p))"

text \<open>The pipeline of \<open>main\<close>: \<open>NewLexer\<close>, \<open>Tokenize\<close>, \<open>NewParser\<close>, \<open>Parse\<close>.\<close>

definition parse_source :: "nat \<Rightarrow> string \<Rightarrow> error + Program" where
  "parse_source fuel src =
     and_then (Tokenize (NewLexer src)) (\<lambda>(toks, _).
     and_then (Parse fuel (NewParser toks)) (\<lambda>(program, _). Inr program))"

section \<open>Notions used in the statements\<close>

text \<open>
  The node that \<open>parsePrimary\<close> builds from one token: a leaf for an identifier, a
  number or a string, and \<open>nil\<close> for any other token.
\<close>

definition operand :: "Token \<Rightarrow> Node option" where
  "operand t =
     (if Type t = ''IDENTIFIER'' then Some (Identifier (Value t))
      else if Type t = ''NUMBER'' then Some (NumericLiteral (Value t))
      else if Type t = ''STRING'' then Some (StringLiteral (Trim (Value t) [CHR 0x22, CHR 0x27]))
      else None)"

text \<open>The token kinds that \<open>parsePrimary\<close> turns into a node.\<close>

definition is_operand :: "Token \<Rightarrow> bool" where
  "is_operand t \<longleftrightarrow> Type t = ''IDENTIFIER'' \<or> Type t = ''NUMBER'' \<or> Type t = ''STRING''"

text \<open>
  \<open>NewLexer\<close> returns a pointer to a new struct, and \<open>Tokenize\<close> mutates the struct behind
  its receiver. The heap is the list of the lexer structs allocated so far, a pointer
  is an index into it. The program has no package-level variable, so the heap is all
  the state that one run could leave to the next.
\<close>

type_synonym heap = "Lexer list"

definition NewLexer_ptr :: "heap \<Rightarrow> string \<Rightarrow> nat \<times> heap" where
  "NewLexer_ptr h inp = (length h, h @ [NewLexer inp])"

definition Tokenize_ptr :: "heap \<Rightarrow> nat \<Rightarrow> error + (Token list \<times> heap)" where
  "Tokenize_ptr h a =
     (if a < length h
      then and_then (Tokenize (h ! a)) (\<lambda>(toks, l). Inr (toks, h[a := l]))
      else Inl NilDereference)"

text \<open>
  Two runs of \<open>NewLexer\<close> followed by \<open>Tokenize\<close> over the same text, one after the other,
  from any heap; a panic of the first run ends the program.
\<close>

definition tokenize_two_runs :: "heap \<Rightarrow> string \<Rightarrow> error + (Token list \<times> Token list)" where
  "tokenize_two_runs h src =
     (let (lexer1, h) = NewLexer_ptr h src in
      and_then (Tokenize_ptr h lexer1) (\<lambda>(tokens1, h).
      let (lexer2, h) = NewLexer_ptr h src in
      and_then (Tokenize_ptr h lexer2) (\<lambda>(tokens2, h).
      Inr (tokens1, tokens2))))"

text \<open>
  A source text made of white space and \<open>//\<close> comments only, given by its pieces in
  order: runs of white space characters, and comments by the text that follows their
  \<open>//\<close>. A comment runs up to the next newline or the end of the text: its text has no
  newline, and what follows it is the end of the text or white space that starts
  with a newline.
\<close>

datatype piece = Space string | LineComment string

fun piece_text :: "piece \<Rightarrow> string" where
  "piece_text (Space w) = w"
| "piece_text (LineComment body) = ''//'' @ body"

definition source_text :: "piece list \<Rightarrow> string" where
  "source_text ps = concat (map piece_text ps)"

text \<open>The comments of a source text, each with its leading \<open>//\<close>, in order.\<close>

fun comment_texts :: "piece list \<Rightarrow> string list" where
  "comment_texts [] = []"
| "comment_texts (Space w # ps) = comment_texts ps"
| "comment_texts (LineComment body # ps) = (''//'' @ body) # comment_texts ps"

fun well_formed :: "piece list \<Rightarrow> bool" where
  "well_formed [] = True"
| "well_formed (Space w # ps) = (list_all isSpace w \<and> well_formed ps)"
| "well_formed [LineComment body] = (CHR 0x0A \<notin> set body)"
| "well_formed (LineComment body # Space w # ps) =
     (CHR 0x0A \<notin> set body \<and> w \<noteq> [] \<and> hd w = CHR 0x0A \<and> well_formed (Space w # ps))"
| "well_formed (LineComment body # LineComment body' # ps) = False"

section \<open>Evaluation\<close>

lemma and_then_Inr [simp]: "and_then (Inr x) f = f x"
  by (simp add: and_then_def)

lemma and_then_Inl [simp]: "and_then (Inl e) f = Inl e"
  by (simp add: and_then_def)

lemma wrap_nonneg: "0 \<le> x \<Longrightarrow> x \<le> MaxInt \<Longrightarrow> wrap x = x"
  by (simp add: wrap_def MaxInt_def)

lemma wrap_MaxInt: "wrap (MaxInt + 1) = MinInt"
  by (simp add: wrap_def MaxInt_def MinInt_def)

lemmas parser_defs = current_def next_def parseComment_def parsePrimary_def parseExpression_def
  parseReturnStatement_def parseVariableDeclaration_def append_node_def isBinaryOperator_def
  Parse_def NewParser_def Trim_def wrap_nonneg MaxInt_def

section \<open>The tokenizer on malformed input\<close>

text \<open>
  Claim C1: \<open>Tokenize\<close> returns normally on every input, and an unterminated string
  literal yields a STRING token that extends to the end of the input.

  The code does not: after the scan for the closing quote has stopped at the end of
  the input, \<open>l.pos++\<close> still skips a closing quote that is not there, and the slice
  \<open>l.input[start:l.pos]\<close> reaches one past the end. On the input \<open>"abc\<close> the call
  panics with a slice bound out of range.
\<close>

theorem Tokenize_unterminated_string:
  "Tokenize (NewLexer (CHR 0x22 # ''abc'')) = Inl SliceOutOfRange"
  by code_simp

section \<open>Termination of the parser\<close>

lemma Tokenize_unclosed_function:
  "Tokenize (NewLexer ''function f() {'') =
     Inr ([\<lparr>Type = ''FUNCTION'', Value = ''function''\<rparr>,
           \<lparr>Type = ''IDENTIFIER'', Value = ''f''\<rparr>,
           \<lparr>Type = ''LEFT_PAREN'', Value = ''(''\<rparr>,
           \<lparr>Type = ''RIGHT_PAREN'', Value = '')''\<rparr>,
           \<lparr>Type = ''LEFT_BRACE'', Value = ''{''\<rparr>,
           \<lparr>Type = ''EOF'', Value = ''''\<rparr>],
          \<lparr>input = ''function f() {'', pos = 14,
           tokens = [\<lparr>Type = ''FUNCTION'', Value = ''function''\<rparr>,
           \<lparr>Type = ''IDENTIFIER'', Value = ''f''\<rparr>,
           \<lparr>Type = ''LEFT_PAREN'', Value = ''(''\<rparr>,
           \<lparr>Type = ''RIGHT_PAREN'', Value = '')''\<rparr>,
           \<lparr>Type = ''LEFT_BRACE'', Value = ''{''\<rparr>,
           \<lparr>Type = ''EOF'', Value = ''''\<rparr>]\<rparr>)"
  by code_simp

text \<open>
  Past the end of the tokens the body loop of a function declaration does not stop:
  every iteration skips the synthetic end marker and moves the cursor on, until the
  cursor wraps around to \<open>MinInt\<close> and \<open>p.tokens[p.pos]\<close> panics.
\<close>

lemma parseFunctionBody_past_end:
  "int (length (ptokens p)) \<le> ppos p \<Longrightarrow> ppos p \<le> MaxInt \<Longrightarrow>
   parseFunctionBody n p body =
     (if n < nat (MaxInt - ppos p) + 2 then Inl OutOfFuel else Inl IndexOutOfRange)"
proof (induction n arbitrary: p)
  case 0
  show ?case by simp
next
  case (Suc n)
  have cur: "current p = Inr \<lparr>Type = ''EOF'', Value = ''''\<rparr>"
    using Suc.prems by (simp add: current_def)
  show ?case
  proof (cases n)
    case 0
    then show ?thesis by (simp add: cur)
  next
    case n: (Suc m)
    show ?thesis
    proof (cases "ppos p = MaxInt")
      case True
      have "next p = Inl IndexOutOfRange"
        using True by (simp add: next_def current_def wrap_MaxInt MinInt_def)
      then have "parseStatement n p = Inl IndexOutOfRange"
        unfolding n by (simp add: cur)
      then show ?thesis using True n by (simp add: cur)
    next
      case False
      let ?p' = "p\<lparr>ppos := ppos p + 1\<rparr>"
      from False Suc.prems have lt: "ppos p < MaxInt" by simp
      have pos: "0 \<le> ppos p" using Suc.prems by linarith
      have "next p = Inr (\<lparr>Type = ''EOF'', Value = ''''\<rparr>, ?p')"
        using Suc.prems lt pos by (simp add: next_def current_def wrap_nonneg)
      then have stmt: "parseStatement n p = Inr (None, ?p')"
        unfolding n by (simp add: cur)
      have "parseFunctionBody n ?p' body =
              (if n < nat (MaxInt - ppos ?p') + 2 then Inl OutOfFuel else Inl IndexOutOfRange)"
        using Suc.prems lt by (intro Suc.IH) simp_all
      moreover have "n < nat (MaxInt - ppos ?p') + 2 \<longleftrightarrow> Suc n < nat (MaxInt - ppos p) + 2"
        using lt by auto
      ultimately show ?thesis
        by (simp add: cur stmt append_node_def del: parseFunctionBody.simps)
           (simp add: cur stmt append_node_def)
    qed
  qed
qed

lemma parseFunctionBody_at_EOF:
  "parseFunctionBody n
     \<lparr>ptokens = [\<lparr>Type = ''FUNCTION'', Value = ''function''\<rparr>,
           \<lparr>Type = ''IDENTIFIER'', Value = ''f''\<rparr>,
           \<lparr>Type = ''LEFT_PAREN'', Value = ''(''\<rparr>,
           \<lparr>Type = ''RIGHT_PAREN'', Value = '')''\<rparr>,
           \<lparr>Type = ''LEFT_BRACE'', Value = ''{''\<rparr>,
           \<lparr>Type = ''EOF'', Value = ''''\<rparr>], ppos = 5\<rparr> [] =
     (if n < nat (MaxInt - 6) + 3 then Inl OutOfFuel else Inl IndexOutOfRange)"
proof (cases n)
  case 0
  then show ?thesis by simp
next
  case (Suc m)
  show ?thesis
  proof (cases m)
    case 0
    then show ?thesis unfolding Suc by (simp add: current_def)
  next
    case (Suc k)
    show ?thesis unfolding \<open>n = Suc m\<close>
      by (subst parseFunctionBody.simps, unfold Suc)
         (simp add: current_def next_def wrap_nonneg MaxInt_def append_node_def
            parseFunctionBody_past_end [unfolded MaxInt_def] del: parseFunctionBody.simps)
  qed
qed

lemma Parse_unclosed_function:
  "Parse fuel (NewParser [\<lparr>Type = ''FUNCTION'', Value = ''function''\<rparr>,
           \<lparr>Type = ''IDENTIFIER'', Value = ''f''\<rparr>,
           \<lparr>Type = ''LEFT_PAREN'', Value = ''(''\<rparr>,
           \<lparr>Type = ''RIGHT_PAREN'', Value = '')''\<rparr>,
           \<lparr>Type = ''LEFT_BRACE'', Value = ''{''\<rparr>,
           \<lparr>Type = ''EOF'', Value = ''''\<rparr>]) =
     (if fuel < nat MaxInt then Inl OutOfFuel else Inl IndexOutOfRange)"
proof -
  have decl: "parseFunctionDeclaration n
     \<lparr>ptokens = [\<lparr>Type = ''FUNCTION'', Value = ''function''\<rparr>,
           \<lparr>Type = ''IDENTIFIER'', Value = ''f''\<rparr>,
           \<lparr>Type = ''LEFT_PAREN'', Value = ''(''\<rparr>,
           \<lparr>Type = ''RIGHT_PAREN'', Value = '')''\<rparr>,
           \<lparr>Type = ''LEFT_BRACE'', Value = ''{''\<rparr>,
           \<lparr>Type = ''EOF'', Value = ''''\<rparr>], ppos = 0\<rparr> =
         (if n < nat (MaxInt - 6) + 4 then Inl OutOfFuel else Inl IndexOutOfRange)" for n
  proof (cases n)
    case 0
    then show ?thesis by simp
  next
    case (Suc m)
    show ?thesis unfolding Suc
      by (cases m)
         (simp_all add: current_def next_def wrap_nonneg MaxInt_def
            parseFunctionBody_at_EOF [unfolded MaxInt_def] del: parseFunctionBody.simps)
  qed
  have "Parse_loop fuel
     \<lparr>ptokens = [\<lparr>Type = ''FUNCTION'', Value = ''function''\<rparr>,
           \<lparr>Type = ''IDENTIFIER'', Value = ''f''\<rparr>,
           \<lparr>Type = ''LEFT_PAREN'', Value = ''(''\<rparr>,
           \<lparr>Type = ''RIGHT_PAREN'', Value = '')''\<rparr>,
           \<lparr>Type = ''LEFT_BRACE'', Value = ''{''\<rparr>,
           \<lparr>Type = ''EOF'', Value = ''''\<rparr>], ppos = 0\<rparr> [] =
         (if fuel < nat (MaxInt - 6) + 6 then Inl OutOfFuel else Inl IndexOutOfRange)"
  proof (cases fuel)
    case 0
    then show ?thesis by simp
  next
    case (Suc m)
    show ?thesis unfolding Suc
      by (cases m) (simp_all add: current_def decl)
  qed
  moreover have "nat (MaxInt - 6) + 6 = nat MaxInt"
    by (simp add: MaxInt_def)
  ultimately show ?thesis
    by (simp add: Parse_def NewParser_def)
qed

text \<open>
  Claim C2: \<open>Parse\<close> terminates on every finite token sequence; a function
  declaration whose body is never closed truncates the tree.

  The body loop of \<open>parseFunctionDeclaration\<close> tests only for \<open>RIGHT_BRACE\<close>, unlike
  the loop of \<open>parseIfStatement\<close>, which also tests for \<open>EOF\<close>. On the source
  \<open>function f() {\<close> the parser returns no tree, whatever the fuel: the loop runs on
  past the end of the tokens until the cursor wraps around, and then panics.
\<close>

theorem unclosed_function_body_no_tree:
  "parse_source fuel ''function f() {'' =
     (if fuel < nat MaxInt then Inl OutOfFuel else Inl IndexOutOfRange)
   \<and> (\<forall>program. parse_source fuel ''function f() {'' \<noteq> Inr program)"
proof -
  have "parse_source fuel ''function f() {'' =
          (if fuel < nat MaxInt then Inl OutOfFuel else Inl IndexOutOfRange)"
    unfolding parse_source_def Tokenize_unclosed_function
    by (simp add: Parse_unclosed_function)
  then show ?thesis by simp
qed

section \<open>String literals\<close>

text \<open>
  Claim C4: the value of a StringLiteral is exactly the text between the two matching
  quotes of the literal.

  \<open>strings.Trim\<close> removes every leading and trailing quote character of either kind.
  The literal \<open>"'hi'"\<close> has the text \<open>'hi'\<close> between its quotes; its node holds \<open>hi\<close>.
\<close>

theorem string_literal_inner_quotes_trimmed:
  "and_then (Tokenize (NewLexer [CHR 0x22, CHR 0x27, CHR ''h'', CHR ''i'', CHR 0x27, CHR 0x22]))
     (\<lambda>(toks, _). and_then (parsePrimary (NewParser toks)) (\<lambda>(node, _). Inr (toks, node)))
   = Inr ([\<lparr>Type = ''STRING'', Value = [CHR 0x22, CHR 0x27, CHR ''h'', CHR ''i'', CHR 0x27, CHR 0x22]\<rparr>,
           \<lparr>Type = ''EOF'', Value = ''''\<rparr>],
          Some (StringLiteral ''hi''))"
  by code_simp

text \<open>
  Where the claim does hold: when the text between the quotes is empty, or neither
  starts nor ends with a quote character of either kind, \<open>Trim\<close> removes exactly the
  two quotes of the literal.
\<close>

lemma Trim_matching_quotes:
  assumes q: "q = CHR 0x22 \<or> q = CHR 0x27"
      and ends: "inner = [] \<or> (hd inner \<notin> {CHR 0x22, CHR 0x27} \<and> last inner \<notin> {CHR 0x22, CHR 0x27})"
  shows "Trim (q # inner @ [q]) [CHR 0x22, CHR 0x27] = inner"
proof (cases inner)
  case Nil
  with q show ?thesis by (auto simp: Trim_def)
next
  case (Cons c cs)
  with ends have c: "c \<noteq> CHR 0x22" "c \<noteq> CHR 0x27"
    and l: "last (c # cs) \<noteq> CHR 0x22" "last (c # cs) \<noteq> CHR 0x27" by auto
  have front: "dropWhile (\<lambda>x. x \<in> set [CHR 0x22, CHR 0x27]) (q # inner @ [q]) = inner @ [q]"
    using q c Cons by auto
  have "rev (inner @ [q]) = q # rev inner" by simp
  moreover have "rev inner = last inner # rev (butlast inner)"
    using Cons by (metis append_butlast_last_id list.distinct(1) rev.simps(2) rev_append rev_rev_ident rev_singleton_conv append_Nil)
  ultimately have tail_part: "dropWhile (\<lambda>x. x \<in> set [CHR 0x22, CHR 0x27]) (rev (inner @ [q])) = rev inner"
    using q l Cons by auto
  show ?thesis unfolding Trim_def front tail_part by simp
qed

section \<open>Worked examples\<close>

lemma Tokenize_const_sum:
  "Tokenize (NewLexer ''const sum = 10 + 5;'') =
     Inr ([\<lparr>Type = ''CONST'', Value = ''const''\<rparr>,
           \<lparr>Type = ''IDENTIFIER'', Value = ''sum''\<rparr>,
           \<lparr>Type = ''EQUALS'', Value = ''=''\<rparr>,
           \<lparr>Type = ''NUMBER'', Value = ''10''\<rparr>,
           \<lparr>Type = ''PLUS'', Value = ''+''\<rparr>,
           \<lparr>Type = ''NUMBER'', Value = ''5''\<rparr>,
           \<lparr>Type = ''SEMICOLON'', Value = '';''\<rparr>,
           \<lparr>Type = ''EOF'', Value = ''''\<rparr>],
          \<lparr>input = ''const sum = 10 + 5;'', pos = 19,
           tokens = [\<lparr>Type = ''CONST'', Value = ''const''\<rparr>,
           \<lparr>Type = ''IDENTIFIER'', Value = ''sum''\<rparr>,
           \<lparr>Type = ''EQUALS'', Value = ''=''\<rparr>,
           \<lparr>Type = ''NUMBER'', Value = ''10''\<rparr>,
           \<lparr>Type = ''PLUS'', Value = ''+''\<rparr>,
           \<lparr>Type = ''NUMBER'', Value = ''5''\<rparr>,
           \<lparr>Type = ''SEMICOLON'', Value = '';''\<rparr>,
           \<lparr>Type = ''EOF'', Value = ''''\<rparr>]\<rparr>)"
  by code_simp

text \<open>
  Claim C8: tokenizing then parsing \<open>const sum = 10 + 5;\<close> gives a Program with the
  VariableDeclaration of kind \<open>const\<close>, name \<open>sum\<close> and value the BinaryExpression of
  NumericLiteral \<open>10\<close>, operator \<open>+\<close> and NumericLiteral \<open>5\<close>. Two units of fuel are
  enough, and more fuel gives the same tree.
\<close>

theorem parse_const_sum:
  "parse_source (Suc (Suc n)) ''const sum = 10 + 5;'' =
     Inr (Program [VariableDeclaration ''const'' ''sum''
            (Some (BinaryExpression (Some (NumericLiteral ''10'')) ''+''
                                    (Some (NumericLiteral ''5''))))])"
  unfolding parse_source_def Tokenize_const_sum
  by (cases n) (simp_all add: parser_defs)

text \<open>
  Claim C9: tokenizing \<open>x == 1\<close> yields exactly IDENTIFIER \<open>x\<close>, EQUALITY \<open>==\<close>,
  NUMBER \<open>1\<close> and the end marker; the lexer is left at the end of its input.
\<close>

theorem Tokenize_x_eq_1:
  "Tokenize (NewLexer ''x == 1'') =
     Inr ([\<lparr>Type = ''IDENTIFIER'', Value = ''x''\<rparr>,
           \<lparr>Type = ''EQUALITY'', Value = ''==''\<rparr>,
           \<lparr>Type = ''NUMBER'', Value = ''1''\<rparr>,
           \<lparr>Type = ''EOF'', Value = ''''\<rparr>],
          \<lparr>input = ''x == 1'', pos = 6,
           tokens = [\<lparr>Type = ''IDENTIFIER'', Value = ''x''\<rparr>,
                     \<lparr>Type = ''EQUALITY'', Value = ''==''\<rparr>,
                     \<lparr>Type = ''NUMBER'', Value = ''1''\<rparr>,
                     \<lparr>Type = ''EOF'', Value = ''''\<rparr>]\<rparr>)"
  by code_simp

section \<open>The cursor of the parser\<close>

lemma current_nonneg:
  "0 \<le> ppos p \<Longrightarrow>
   current p = Inr (if int (length (ptokens p)) \<le> ppos p then \<lparr>Type = ''EOF'', Value = ''''\<rparr>
                    else ptokens p ! nat (ppos p))"
  by (simp add: current_def)

lemma next_nonneg:
  "0 \<le> ppos p \<Longrightarrow> ppos p < MaxInt \<Longrightarrow>
   next p = Inr (if int (length (ptokens p)) \<le> ppos p + 1 then \<lparr>Type = ''EOF'', Value = ''''\<rparr>
                 else ptokens p ! nat (ppos p + 1), p\<lparr>ppos := ppos p + 1\<rparr>)"
  by (simp add: next_def current_def wrap_nonneg)

lemma parsePrimary_nonneg:
  "0 \<le> ppos p \<Longrightarrow> ppos p < MaxInt \<Longrightarrow>
   parsePrimary p =
     Inr (operand (if int (length (ptokens p)) \<le> ppos p then \<lparr>Type = ''EOF'', Value = ''''\<rparr>
                   else ptokens p ! nat (ppos p)), p\<lparr>ppos := ppos p + 1\<rparr>)"
  by (simp add: parsePrimary_def current_nonneg next_nonneg operand_def)

lemma nth_from_drop: "drop k xs = ys \<Longrightarrow> i < length ys \<Longrightarrow> k + i < length xs \<and> xs ! (k + i) = ys ! i"
  by (induction xs arbitrary: k) (auto simp: drop_Cons split: nat.splits)

section \<open>Single-level expressions\<close>

text \<open>
  Claim C3: \<open>parseExpression\<close> combines one level of binary operators only. On a chain
  of three or more operands joined by operators of the fixed set, starting at the
  cursor, it returns the flat BinaryExpression of the first two operands (both
  children are leaves, built from the first and the third token alone) and leaves
  the cursor on the second operator: the trailing operator and operands are not
  part of the returned tree. The token sequence is a Go slice: it has at most
  \<open>MaxInt\<close> elements.
\<close>

theorem parseExpression_single_level:
  assumes pos: "0 \<le> ppos p"
      and bound: "int (length (ptokens p)) \<le> MaxInt"
      and chain: "drop (nat (ppos p)) (ptokens p) = a # op1 # b # op2 # c # rest"
      and operands: "is_operand a" "is_operand b" "is_operand c"
      and operators: "isBinaryOperator (Type op1)" "isBinaryOperator (Type op2)"
  shows "parseExpression p =
           Inr (Some (BinaryExpression (operand a) (Value op1) (operand b)),
                p\<lparr>ppos := ppos p + 3\<rparr>)
         \<and> current (p\<lparr>ppos := ppos p + 3\<rparr>) = Inr op2
         \<and> (\<exists>l r. operand a = Some l \<and> operand b = Some r
                \<and> (\<forall>x opr y. l \<noteq> BinaryExpression x opr y \<and> r \<noteq> BinaryExpression x opr y))"
proof -
  let ?k = "nat (ppos p)"
  let ?ys = "a # op1 # b # op2 # c # rest"
  have at: "i < length ?ys \<Longrightarrow> ?k + i < length (ptokens p) \<and> ptokens p ! (?k + i) = ?ys ! i" for i
    using nth_from_drop [OF chain] by blast
  have k: "int ?k = ppos p" using pos by simp
  have t0: "\<not> int (length (ptokens p)) \<le> ppos p" "ptokens p ! nat (ppos p) = a"
    using at [of 0] k by auto
  have t1: "\<not> int (length (ptokens p)) \<le> ppos p + 1" "ptokens p ! nat (ppos p + 1) = op1"
    using at [of 1] k pos by (auto simp: nat_add_distrib)
  have t2: "\<not> int (length (ptokens p)) \<le> ppos p + 2" "ptokens p ! nat (ppos p + 2) = b"
    using at [of 2] k pos by (auto simp: nat_add_distrib)
  have t3: "\<not> int (length (ptokens p)) \<le> ppos p + 3" "ptokens p ! nat (ppos p + 3) = op2"
    using at [of 3] k pos by (auto simp: nat_add_distrib)
  have lt: "ppos p + 3 < MaxInt"
    using t3(1) bound by linarith
  have left: "parsePrimary p = Inr (operand a, p\<lparr>ppos := ppos p + 1\<rparr>)"
    using pos lt t0 by (simp add: parsePrimary_nonneg)
  have cur1: "current (p\<lparr>ppos := ppos p + 1\<rparr>) = Inr op1"
    using pos t1 by (simp add: current_nonneg)
  have nxt: "next (p\<lparr>ppos := ppos p + 1\<rparr>) = Inr (b, p\<lparr>ppos := ppos p + 2\<rparr>)"
    using pos lt t2 by (simp add: next_nonneg add.commute)
  have right: "parsePrimary (p\<lparr>ppos := ppos p + 2\<rparr>) = Inr (operand b, p\<lparr>ppos := ppos p + 3\<rparr>)"
    using pos lt t2 by (simp add: parsePrimary_nonneg add.commute)
  have "parseExpression p =
          Inr (Some (BinaryExpression (operand a) (Value op1) (operand b)), p\<lparr>ppos := ppos p + 3\<rparr>)"
    unfolding parseExpression_def using operators(1) by (simp add: left cur1 nxt right)
  moreover have "current (p\<lparr>ppos := ppos p + 3\<rparr>) = Inr op2"
    using pos t3 by (simp add: current_nonneg)
  moreover have "\<exists>l r. operand a = Some l \<and> operand b = Some r
                \<and> (\<forall>x opr y. l \<noteq> BinaryExpression x opr y \<and> r \<noteq> BinaryExpression x opr y)"
    using operands by (auto simp: is_operand_def operand_def)
  ultimately show ?thesis by blast
qed

theorem parseExpression_single_level_witness:
  "parseExpression
     \<lparr>ptokens = [\<lparr>Type = ''IDENTIFIER'', Value = ''a''\<rparr>, \<lparr>Type = ''PLUS'', Value = ''+''\<rparr>,
                 \<lparr>Type = ''IDENTIFIER'', Value = ''b''\<rparr>, \<lparr>Type = ''PLUS'', Value = ''+''\<rparr>,
                 \<lparr>Type = ''IDENTIFIER'', Value = ''c''\<rparr>, \<lparr>Type = ''SEMICOLON'', Value = '';''\<rparr>,
                 \<lparr>Type = ''EOF'', Value = ''''\<rparr>], ppos = 0\<rparr>
   = Inr (Some (BinaryExpression (Some (Identifier ''a'')) ''+'' (Some (Identifier ''b''))),
          \<lparr>ptokens = [\<lparr>Type = ''IDENTIFIER'', Value = ''a''\<rparr>, \<lparr>Type = ''PLUS'', Value = ''+''\<rparr>,
                 \<lparr>Type = ''IDENTIFIER'', Value = ''b''\<rparr>, \<lparr>Type = ''PLUS'', Value = ''+''\<rparr>,
                 \<lparr>Type = ''IDENTIFIER'', Value = ''c''\<rparr>, \<lparr>Type = ''SEMICOLON'', Value = '';''\<rparr>,
                 \<lparr>Type = ''EOF'', Value = ''''\<rparr>], ppos = 3\<rparr>)"
  using parseExpression_single_level
    [of "\<lparr>ptokens = [\<lparr>Type = ''IDENTIFIER'', Value = ''a''\<rparr>, \<lparr>Type = ''PLUS'', Value = ''+''\<rparr>,
                 \<lparr>Type = ''IDENTIFIER'', Value = ''b''\<rparr>, \<lparr>Type = ''PLUS'', Value = ''+''\<rparr>,
                 \<lparr>Type = ''IDENTIFIER'', Value = ''c''\<rparr>, \<lparr>Type = ''SEMICOLON'', Value = '';''\<rparr>,
                 \<lparr>Type = ''EOF'', Value = ''''\<rparr>], ppos = 0\<rparr>"
        "\<lparr>Type = ''IDENTIFIER'', Value = ''a''\<rparr>" "\<lparr>Type = ''PLUS'', Value = ''+''\<rparr>"
        "\<lparr>Type = ''IDENTIFIER'', Value = ''b''\<rparr>" "\<lparr>Type = ''PLUS'', Value = ''+''\<rparr>"
        "\<lparr>Type = ''IDENTIFIER'', Value = ''c''\<rparr>"
        "[\<lparr>Type = ''SEMICOLON'', Value = '';''\<rparr>, \<lparr>Type = ''EOF'', Value = ''''\<rparr>]"]
  by (simp add: is_operand_def isBinaryOperator_def operand_def MaxInt_def)

text \<open>The example of the specification, through the whole pipeline.\<close>

lemma Tokenize_return_chain:
  "Tokenize (NewLexer ''return a + b + c;'') =
     Inr ([\<lparr>Type = ''RETURN'', Value = ''return''\<rparr>,
           \<lparr>Type = ''IDENTIFIER'', Value = ''a''\<rparr>, \<lparr>Type = ''PLUS'', Value = ''+''\<rparr>,
           \<lparr>Type = ''IDENTIFIER'', Value = ''b''\<rparr>, \<lparr>Type = ''PLUS'', Value = ''+''\<rparr>,
           \<lparr>Type = ''IDENTIFIER'', Value = ''c''\<rparr>, \<lparr>Type = ''SEMICOLON'', Value = '';''\<rparr>,
           \<lparr>Type = ''EOF'', Value = ''''\<rparr>],
          \<lparr>input = ''return a + b + c;'', pos = 17,
           tokens = [\<lparr>Type = ''RETURN'', Value = ''return''\<rparr>,
           \<lparr>Type = ''IDENTIFIER'', Value = ''a''\<rparr>, \<lparr>Type = ''PLUS'', Value = ''+''\<rparr>,
           \<lparr>Type = ''IDENTIFIER'', Value = ''b''\<rparr>, \<lparr>Type = ''PLUS'', Value = ''+''\<rparr>,
           \<lparr>Type = ''IDENTIFIER'', Value = ''c''\<rparr>, \<lparr>Type = ''SEMICOLON'', Value = '';''\<rparr>,
           \<lparr>Type = ''EOF'', Value = ''''\<rparr>]\<rparr>)"
  by code_simp

lemma parse_return_chain:
  "parse_source (Suc (Suc (Suc (Suc (Suc n))))) ''return a + b + c;'' =
     Inr (Program [ReturnStatement
            (Some (BinaryExpression (Some (Identifier ''a'')) ''+'' (Some (Identifier ''b''))))])"
  unfolding parse_source_def Tokenize_return_chain
  by (simp add: parser_defs)

section \<open>Token access\<close>

text \<open>At or past the end of the tokens \<open>current\<close> returns the synthetic end marker.\<close>

lemma current_past_end:
  "int (length (ptokens p)) \<le> ppos p \<Longrightarrow> current p = Inr \<lparr>Type = ''EOF'', Value = ''''\<rparr>"
  by (simp add: current_def)

text \<open>\<open>Parse\<close> of the empty token sequence returns a Program with an empty body.\<close>

lemma Parse_no_tokens: "Parse (Suc n) (NewParser []) = Inr (Program [], NewParser [])"
  by (simp add: Parse_def NewParser_def current_def)

text \<open>
  Claim C10: token access is total: \<open>current\<close> returns the synthetic end marker at or
  past the end of the token sequence, so \<open>Parse\<close> never indexes out of bounds, on any
  token sequence.

  The guard of \<open>current\<close> covers the upper end only. On the tokens of \<open>function f() {\<close>
  the body loop of \<open>parseFunctionDeclaration\<close>, which lacks the \<open>EOF\<close> test, increments
  the cursor past the end until it wraps around to \<open>MinInt\<close>; the negative cursor
  passes the guard and \<open>p.tokens[p.pos]\<close> panics with an index out of range.
\<close>

theorem Parse_index_out_of_range:
  "Parse (nat MaxInt) (NewParser [\<lparr>Type = ''FUNCTION'', Value = ''function''\<rparr>,
           \<lparr>Type = ''IDENTIFIER'', Value = ''f''\<rparr>,
           \<lparr>Type = ''LEFT_PAREN'', Value = ''(''\<rparr>,
           \<lparr>Type = ''RIGHT_PAREN'', Value = '')''\<rparr>,
           \<lparr>Type = ''LEFT_BRACE'', Value = ''{''\<rparr>,
           \<lparr>Type = ''EOF'', Value = ''''\<rparr>]) = Inl IndexOutOfRange"
  by (simp add: Parse_unclosed_function)

section \<open>The end marker\<close>

lemma keyword_type_not_EOF: "keyword_type v \<noteq> ''EOF''"
  by (simp add: keyword_type_def)

lemma Tokenize_switch_tokens:
  "Tokenize_switch l c = Inr l' \<Longrightarrow>
   \<exists>new. tokens l' = tokens l @ new \<and> (\<forall>t \<in> set new. Type t \<noteq> ''EOF'')"
  unfolding Tokenize_switch_def Let_def emit_def
  by (auto split: if_splits sum.splits)

lemma Tokenize_step_tokens:
  "Tokenize_step l = Inr l' \<Longrightarrow>
   \<exists>new. tokens l' = tokens l @ new \<and> (\<forall>t \<in> set new. Type t \<noteq> ''EOF'')"
  unfolding Tokenize_step_def Let_def emit_def
  by (auto split: if_splits sum.splits simp: keyword_type_not_EOF dest: Tokenize_switch_tokens)

lemma Tokenize_loop_tokens:
  "Tokenize_loop l = Inr l' \<Longrightarrow>
   \<exists>new. tokens l' = tokens l @ new \<and> (\<forall>t \<in> set new. Type t \<noteq> ''EOF'')"
proof (induction l rule: Tokenize_loop.induct)
  case (1 l)
  show ?case
  proof (cases "pos l < length (input l)")
    case False
    with "1.prems" have "l' = l" by (subst (asm) Tokenize_loop.simps) simp
    then show ?thesis by simp
  next
    case True
    with "1.prems" obtain m where step: "Tokenize_step l = Inr m" and rest: "Tokenize_loop m = Inr l'"
      by (subst (asm) Tokenize_loop.simps) (auto split: sum.splits)
    from Tokenize_step_tokens [OF step] obtain new1
      where new1: "tokens m = tokens l @ new1" "\<forall>t \<in> set new1. Type t \<noteq> ''EOF''" by blast
    from "1.IH" [OF True step rest] obtain new2
      where new2: "tokens l' = tokens m @ new2" "\<forall>t \<in> set new2. Type t \<noteq> ''EOF''" by blast
    have "tokens l' = tokens l @ (new1 @ new2)" using new1 new2 by simp
    moreover have "\<forall>t \<in> set (new1 @ new2). Type t \<noteq> ''EOF''" using new1 new2 by auto
    ultimately show ?thesis by blast
  qed
qed

text \<open>
  Claim C5: whenever \<open>Tokenize\<close> returns, the token sequence ends with the end marker
  with empty literal, and no other token of the sequence has the kind EOF: there is
  exactly one.
\<close>

theorem Tokenize_single_end_marker:
  assumes "Tokenize (NewLexer src) = Inr (toks, l)"
  shows "toks \<noteq> [] \<and> last toks = \<lparr>Type = ''EOF'', Value = ''''\<rparr>
         \<and> (\<forall>t \<in> set (butlast toks). Type t \<noteq> ''EOF'')
         \<and> length (filter (\<lambda>t. Type t = ''EOF'') toks) = 1"
proof -
  from assms obtain l' where loop: "Tokenize_loop (NewLexer src) = Inr l'"
    and toks: "toks = tokens l' @ [\<lparr>Type = ''EOF'', Value = ''''\<rparr>]"
    by (auto simp: Tokenize_def emit_def Let_def split: sum.splits)
  from Tokenize_loop_tokens [OF loop] have front: "\<forall>t \<in> set (tokens l'). Type t \<noteq> ''EOF''"
    by (auto simp: NewLexer_def)
  then have "filter (\<lambda>t. Type t = ''EOF'') (tokens l') = []"
    by (simp add: filter_empty_conv)
  with front toks show ?thesis by simp
qed

text \<open>The identifier \<open>EOF\<close> is an IDENTIFIER token, not an end marker.\<close>

lemma Tokenize_EOF_identifier:
  "Tokenize (NewLexer ''EOF'') =
     Inr ([\<lparr>Type = ''IDENTIFIER'', Value = ''EOF''\<rparr>, \<lparr>Type = ''EOF'', Value = ''''\<rparr>],
          \<lparr>input = ''EOF'', pos = 3,
           tokens = [\<lparr>Type = ''IDENTIFIER'', Value = ''EOF''\<rparr>, \<lparr>Type = ''EOF'', Value = ''''\<rparr>]\<rparr>)"
  by code_simp

theorem Tokenize_single_end_marker_witness:
  "[\<lparr>Type = ''IDENTIFIER'', Value = ''EOF''\<rparr>, \<lparr>Type = ''EOF'', Value = ''''\<rparr>] \<noteq> []
   \<and> last [\<lparr>Type = ''IDENTIFIER'', Value = ''EOF''\<rparr>, \<lparr>Type = ''EOF'', Value = ''''\<rparr>]
       = \<lparr>Type = ''EOF'', Value = ''''\<rparr>
   \<and> length (filter (\<lambda>t. Type t = ''EOF'')
         [\<lparr>Type = ''IDENTIFIER'', Value = ''EOF''\<rparr>, \<lparr>Type = ''EOF'', Value = ''''\<rparr>]) = 1"
  using Tokenize_single_end_marker [OF Tokenize_EOF_identifier] by blast

section \<open>Repeated tokenization\<close>

text \<open>
  Where the first run returns, the second run returns the same token sequence, from
  any heap: it allocates its own lexer and reads nothing of the first. Where the run
  panics, the first one does.
\<close>

lemma tokenize_two_runs_outcome:
  "tokenize_two_runs h src =
     (case Tokenize (NewLexer src) of
        Inl e \<Rightarrow> Inl e
      | Inr (toks, l) \<Rightarrow> Inr (toks, toks))"
  by (cases "Tokenize (NewLexer src)")
     (auto simp: tokenize_two_runs_def NewLexer_ptr_def Tokenize_ptr_def nth_append)

lemma Tokenize_unterminated_single_quote:
  "Tokenize (NewLexer [CHR 0x27, CHR ''x'']) = Inl SliceOutOfRange"
  by code_simp

text \<open>
  Claim C7: for every input text, two runs of \<open>NewLexer\<close> followed by \<open>Tokenize\<close> over
  that text produce two identical token sequences.

  On a text with an unterminated string literal they produce none: on the input
  \<open>'x\<close> the first run panics with a slice bound out of range, as a single run does,
  from any heap.
\<close>

theorem tokenize_two_runs_unterminated_string:
  "tokenize_two_runs h [CHR 0x27, CHR ''x''] = Inl SliceOutOfRange"
  by (simp add: tokenize_two_runs_outcome Tokenize_unterminated_single_quote)

text \<open>
  The state is in the lexer: a second \<open>Tokenize\<close> on the lexer of the first run, without
  \<open>NewLexer\<close>, appends a second end marker.
\<close>

lemma Tokenize_reused_lexer:
  "and_then (Tokenize (NewLexer ''x'')) (\<lambda>(toks, l). and_then (Tokenize l) (\<lambda>(toks', _). Inr (toks, toks')))
   = Inr ([\<lparr>Type = ''IDENTIFIER'', Value = ''x''\<rparr>, \<lparr>Type = ''EOF'', Value = ''''\<rparr>],
          [\<lparr>Type = ''IDENTIFIER'', Value = ''x''\<rparr>, \<lparr>Type = ''EOF'', Value = ''''\<rparr>,
           \<lparr>Type = ''EOF'', Value = ''''\<rparr>])"
  by code_simp

section \<open>Sources of white space and comments\<close>

lemma scan_while_append:
  "scan_while P (pre @ s) (length pre) = length pre + length (takeWhile P s)"
proof (induction s arbitrary: pre)
  case Nil
  show ?case by (subst scan_while.simps) simp
next
  case (Cons c s)
  have "scan_while P ((pre @ [c]) @ s) (length (pre @ [c]))
          = length (pre @ [c]) + length (takeWhile P s)"
    by (rule Cons.IH)
  then have step: "scan_while P (pre @ c # s) (length pre + 1) = length pre + 1 + length (takeWhile P s)"
    by simp
  show ?case using step
    by (subst scan_while.simps) simp
qed

lemma slice_append:
  "k \<le> length s \<Longrightarrow> slice (pre @ s) (length pre) (length pre + k) = Inr (take k s)"
  by (simp add: slice_def)

lemma takeWhile_until:
  "\<forall>x \<in> set xs. P x \<Longrightarrow> ys = [] \<or> \<not> P (hd ys) \<Longrightarrow> takeWhile P (xs @ ys) = xs"
  by (cases ys) (auto simp: takeWhile_append)

lemma Tokenize_loop_space:
  "list_all isSpace w \<Longrightarrow>
   Tokenize_loop \<lparr>input = pre @ w @ rest, pos = length pre, tokens = ts\<rparr> =
   Tokenize_loop \<lparr>input = pre @ w @ rest, pos = length pre + length w, tokens = ts\<rparr>"
proof (induction w arbitrary: pre)
  case Nil
  show ?case by simp
next
  case (Cons c w)
  then have c: "isSpace c" and w: "list_all isSpace w" by simp_all
  have "Tokenize_loop \<lparr>input = pre @ (c # w) @ rest, pos = length pre, tokens = ts\<rparr> =
        Tokenize_loop \<lparr>input = pre @ (c # w) @ rest, pos = length pre + 1, tokens = ts\<rparr>"
    by (subst Tokenize_loop.simps) (simp add: Tokenize_step_def c)
  also have "\<dots> = Tokenize_loop \<lparr>input = (pre @ [c]) @ w @ rest, pos = length (pre @ [c]), tokens = ts\<rparr>"
    by simp
  also have "\<dots> = Tokenize_loop \<lparr>input = (pre @ [c]) @ w @ rest, pos = length (pre @ [c]) + length w, tokens = ts\<rparr>"
    by (rule Cons.IH [OF w])
  finally show ?case by simp
qed

lemma Tokenize_step_comment:
  assumes body: "CHR 0x0A \<notin> set body" and rest: "rest = [] \<or> hd rest = CHR 0x0A"
  shows "Tokenize_step \<lparr>input = pre @ ''//'' @ body @ rest, pos = length pre, tokens = ts\<rparr> =
         Inr \<lparr>input = pre @ ''//'' @ body @ rest, pos = length pre + 2 + length body,
              tokens = ts @ [\<lparr>Type = ''COMMENT'', Value = ''//'' @ body\<rparr>]\<rparr>"
proof -
  have tw: "takeWhile (\<lambda>c. c \<noteq> CHR 0x0A) ((''//'' @ body) @ rest) = ''//'' @ body"
    using body rest by (intro takeWhile_until) auto
  have scan: "scan_while (\<lambda>c. c \<noteq> CHR 0x0A) (pre @ ''//'' @ body @ rest) (length pre)
                = length pre + (2 + length body)"
    using scan_while_append [of "\<lambda>c. c \<noteq> CHR 0x0A" pre "(''//'' @ body) @ rest"] tw by simp
  have sl: "slice (pre @ ''//'' @ body @ rest) (length pre) (length pre + (2 + length body))
              = Inr (''//'' @ body)"
    using slice_append [of "2 + length body" "''//'' @ body @ rest" pre] by simp
  show ?thesis using scan sl
    by (simp add: Tokenize_step_def isSpace_def nth_append emit_def Let_def)
qed

lemma Tokenize_loop_done:
  "Tokenize_loop \<lparr>input = s, pos = length s, tokens = ts\<rparr> = Inr \<lparr>input = s, pos = length s, tokens = ts\<rparr>"
  by (subst Tokenize_loop.simps) simp

lemma Tokenize_loop_pieces:
  "well_formed ps \<Longrightarrow>
   Tokenize_loop \<lparr>input = pre @ source_text ps, pos = length pre, tokens = ts\<rparr> =
   Inr \<lparr>input = pre @ source_text ps, pos = length pre + length (source_text ps),
        tokens = ts @ map (\<lambda>c. \<lparr>Type = ''COMMENT'', Value = c\<rparr>) (comment_texts ps)\<rparr>"
proof (induction ps arbitrary: pre ts rule: well_formed.induct)
  case 1
  show ?case using Tokenize_loop_done [of pre ts] by (simp add: source_text_def)
next
  case (2 w ps)
  then have w: "list_all isSpace w" and ps: "well_formed ps" by simp_all
  have "Tokenize_loop \<lparr>input = pre @ w @ source_text ps, pos = length pre, tokens = ts\<rparr> =
        Tokenize_loop \<lparr>input = (pre @ w) @ source_text ps, pos = length (pre @ w), tokens = ts\<rparr>"
    using Tokenize_loop_space [OF w, of pre "source_text ps" ts] by simp
  also have "\<dots> = Inr \<lparr>input = (pre @ w) @ source_text ps,
                         pos = length (pre @ w) + length (source_text ps),
                         tokens = ts @ map (\<lambda>c. \<lparr>Type = ''COMMENT'', Value = c\<rparr>) (comment_texts ps)\<rparr>"
    by (rule "2.IH" [OF ps])
  finally show ?case by (simp add: source_text_def)
next
  case (3 body)
  then have body: "CHR 0x0A \<notin> set body" by simp
  have step: "Tokenize_step \<lparr>input = pre @ ''//'' @ body @ [], pos = length pre, tokens = ts\<rparr> =
         Inr \<lparr>input = pre @ ''//'' @ body @ [], pos = length pre + 2 + length body,
              tokens = ts @ [\<lparr>Type = ''COMMENT'', Value = ''//'' @ body\<rparr>]\<rparr>"
    by (rule Tokenize_step_comment [OF body]) simp
  show ?case
    using step Tokenize_loop_done [of "pre @ ''//'' @ body" "ts @ [\<lparr>Type = ''COMMENT'', Value = ''//'' @ body\<rparr>]"]
    by (subst Tokenize_loop.simps) (simp add: source_text_def)
next
  case (4 body w ps)
  then have body: "CHR 0x0A \<notin> set body" and w: "w \<noteq> []" "hd w = CHR 0x0A"
    and rest: "well_formed (Space w # ps)" by simp_all
  let ?rest = "source_text (Space w # ps)"
  have hd_rest: "?rest = [] \<or> hd ?rest = CHR 0x0A"
    using w by (simp add: source_text_def)
  have step: "Tokenize_step \<lparr>input = pre @ ''//'' @ body @ ?rest, pos = length pre, tokens = ts\<rparr> =
         Inr \<lparr>input = pre @ ''//'' @ body @ ?rest, pos = length pre + 2 + length body,
              tokens = ts @ [\<lparr>Type = ''COMMENT'', Value = ''//'' @ body\<rparr>]\<rparr>"
    by (rule Tokenize_step_comment [OF body hd_rest])
  have "Tokenize_loop \<lparr>input = pre @ ''//'' @ body @ ?rest, pos = length pre, tokens = ts\<rparr> =
        Tokenize_loop \<lparr>input = (pre @ ''//'' @ body) @ ?rest, pos = length (pre @ ''//'' @ body),
                        tokens = ts @ [\<lparr>Type = ''COMMENT'', Value = ''//'' @ body\<rparr>]\<rparr>"
    using step by (subst Tokenize_loop.simps) simp
  also have "\<dots> = Inr \<lparr>input = (pre @ ''//'' @ body) @ ?rest,
                         pos = length (pre @ ''//'' @ body) + length ?rest,
                         tokens = (ts @ [\<lparr>Type = ''COMMENT'', Value = ''//'' @ body\<rparr>])
                                   @ map (\<lambda>c. \<lparr>Type = ''COMMENT'', Value = c\<rparr>) (comment_texts (Space w # ps))\<rparr>"
    by (rule "4.IH" [OF rest])
  finally show ?case by (simp add: source_text_def)
next
  case (5 body body' ps)
  then show ?case by simp
qed

lemma Tokenize_pieces:
  assumes "well_formed ps"
  shows "Tokenize (NewLexer (source_text ps)) =
           Inr (map (\<lambda>c. \<lparr>Type = ''COMMENT'', Value = c\<rparr>) (comment_texts ps) @ [\<lparr>Type = ''EOF'', Value = ''''\<rparr>],
                \<lparr>input = source_text ps, pos = length (source_text ps),
                 tokens = map (\<lambda>c. \<lparr>Type = ''COMMENT'', Value = c\<rparr>) (comment_texts ps)
                            @ [\<lparr>Type = ''EOF'', Value = ''''\<rparr>]\<rparr>)"
  using Tokenize_loop_pieces [OF assms, of "[]" "[]"]
  by (simp add: Tokenize_def NewLexer_def emit_def)

lemma Parse_loop_comments:
  "length cs < fuel \<Longrightarrow> int (length pre + length cs) \<le> MaxInt \<Longrightarrow>
   Parse_loop fuel
     \<lparr>ptokens = pre @ map (\<lambda>c. \<lparr>Type = ''COMMENT'', Value = c\<rparr>) cs @ [\<lparr>Type = ''EOF'', Value = ''''\<rparr>],
      ppos = int (length pre)\<rparr> body =
   Inr (body @ map Comment cs,
        \<lparr>ptokens = pre @ map (\<lambda>c. \<lparr>Type = ''COMMENT'', Value = c\<rparr>) cs @ [\<lparr>Type = ''EOF'', Value = ''''\<rparr>],
         ppos = int (length pre + length cs)\<rparr>)"
proof (induction cs arbitrary: pre fuel body)
  case Nil
  then obtain n where "fuel = Suc n" by (cases fuel) auto
  then show ?case by (simp add: current_def)
next
  case (Cons c cs)
  then obtain m where fuel: "fuel = Suc (Suc m)" and m: "length cs < Suc m"
    by (cases fuel; cases "fuel - 1") auto
  from Cons.prems have bound: "int (length pre) + 1 \<le> MaxInt"
    and bound': "int (length (pre @ [\<lparr>Type = ''COMMENT'', Value = c\<rparr>]) + length cs) \<le> MaxInt"
    by simp_all
  let ?toks = "pre @ map (\<lambda>c. \<lparr>Type = ''COMMENT'', Value = c\<rparr>) (c # cs) @ [\<lparr>Type = ''EOF'', Value = ''''\<rparr>]"
  have stmt: "parseStatement (Suc m) \<lparr>ptokens = ?toks, ppos = int (length pre)\<rparr> =
          Inr (Some (Comment c), \<lparr>ptokens = ?toks, ppos = int (length pre) + 1\<rparr>)"
    using bound by (simp add: current_def next_def parseComment_def wrap_nonneg)
  have rest: "Parse_loop (Suc m)
          \<lparr>ptokens = (pre @ [\<lparr>Type = ''COMMENT'', Value = c\<rparr>]) @ map (\<lambda>c. \<lparr>Type = ''COMMENT'', Value = c\<rparr>) cs
                       @ [\<lparr>Type = ''EOF'', Value = ''''\<rparr>],
           ppos = int (length (pre @ [\<lparr>Type = ''COMMENT'', Value = c\<rparr>]))\<rparr> (body @ [Comment c]) =
        Inr ((body @ [Comment c]) @ map Comment cs,
          \<lparr>ptokens = (pre @ [\<lparr>Type = ''COMMENT'', Value = c\<rparr>]) @ map (\<lambda>c. \<lparr>Type = ''COMMENT'', Value = c\<rparr>) cs
                       @ [\<lparr>Type = ''EOF'', Value = ''''\<rparr>],
           ppos = int (length (pre @ [\<lparr>Type = ''COMMENT'', Value = c\<rparr>]) + length cs)\<rparr>)"
    by (rule Cons.IH [OF m bound'])
  have "Parse_loop (Suc (Suc m)) \<lparr>ptokens = ?toks, ppos = int (length pre)\<rparr> body =
        Parse_loop (Suc m) \<lparr>ptokens = ?toks, ppos = int (length pre) + 1\<rparr> (body @ [Comment c])"
    using stmt
    by (subst Parse_loop.simps)
       (simp add: current_def append_node_def del: parseStatement.simps Parse_loop.simps)
  with rest show ?case unfolding fuel by (simp add: add.commute)
qed

text \<open>
  Claim C6: for a source text of white space and \<open>//\<close> comments only, tokenizing then
  parsing returns a Program whose body is exactly one Comment node per comment, in
  order, each with the text of its comment from the leading \<open>//\<close> up to, and without,
  the newline that ends it. One unit of fuel more than there are comments is enough.
  The token sequence, one token per comment and the end marker, is a Go slice: it has
  at most \<open>MaxInt\<close> elements.
\<close>

theorem comments_only_source:
  assumes "well_formed ps" and "length (comment_texts ps) < fuel"
      and "int (length (comment_texts ps)) < MaxInt"
  shows "parse_source fuel (source_text ps) = Inr (Program (map Comment (comment_texts ps)))"
  using Parse_loop_comments [OF assms(2), of "[]" "[]"] assms(3)
  by (simp add: parse_source_def Tokenize_pieces [OF assms(1)] Parse_def NewParser_def)

theorem comments_only_source_witness:
  "parse_source 3 (''  // a'' @ [CHR 0x0A, CHR 0x09] @ ''//b // c'') =
     Inr (Program [Comment ''// a'', Comment ''//b // c''])"
  using comments_only_source
    [of "[Space ''  '', LineComment '' a'', Space [CHR 0x0A, CHR 0x09], LineComment ''b // c'']" 3]
  by (simp add: source_text_def isSpace_def MaxInt_def)

end
